theory Spec2Isabelle
  imports Main "HOL-Library.AList" "HOL-Library.Multiset" "HOL-Library.Sublist"
begin

section \<open>Data model of \<^verbatim>\<open>src/App.jsx\<close>\<close>

text \<open>
  Rows arrive as JSON objects. A column that is \<^verbatim>\<open>null\<close> is \<open>None\<close>. Identifiers are UUID
  strings (the component calls \<^verbatim>\<open>t.id.split('-')\<close> on them), and the identifier of a trip
  is its key, never \<^verbatim>\<open>null\<close>. The animal counts are integer columns; the statistics
  add them as doubles (\<open>js_add\<close> below). Only the columns that the filter
  and the statistics read are fields of the records below; every other column of a row
  (\<^verbatim>\<open>id\<close>, \<^verbatim>\<open>latitude\<close>, \<^verbatim>\<open>longitude\<close>, \<^verbatim>\<open>photo_url\<close>, ...) lives in the extension part of
  the record scheme.
\<close>

record trip =
  id_t :: string
  user_id :: "string option"
  start_time :: "string option"

record point =
  trip_id :: "string option"
  type :: "string option"
  created_at :: "string option"
  adults :: "int option"
  calves :: "int option"
  danger_type :: "string option"
  health_status :: "string option"

text \<open>
  The component state (the \<^verbatim>\<open>useState\<close> cells that the pipeline reads). The sentinel
  \<^verbatim>\<open>'all'\<close> of \<open>filterUser\<close> and \<open>filterTrip\<close> and the empty string of the two
  date inputs mean "no restriction". \<open>activeLayers\<close> holds the own properties of the
  layer object.
\<close>

record 'a state =
  trips :: "trip list"
  points :: "'a point_scheme list"
  filterUser :: string
  filterStartDate :: string
  filterEndDate :: string
  filterTrip :: string
  activeLayers :: "string \<rightharpoonup> bool"

text \<open>The initial values of the \<^verbatim>\<open>useState\<close> cells.\<close>

definition initial_state :: "unit state" where
  "initial_state =
     \<lparr>trips = [], points = [], filterUser = ''all'', filterStartDate = [],
      filterEndDate = [], filterTrip = ''all'',
      activeLayers = [''Inicio'' \<mapsto> True, ''Fin'' \<mapsto> True, ''Avistamiento'' \<mapsto> True,
        ''Peligro'' \<mapsto> True]\<rparr>"

text \<open>A row of \<^verbatim>\<open>trip_data\<close> whose columns are all \<^verbatim>\<open>null\<close>, to build example rows from.\<close>

definition null_row :: point where
  "null_row =
     \<lparr>trip_id = None, type = None, created_at = None, adults = None, calves = None,
      danger_type = None, health_status = None\<rparr>"

section \<open>Push events (\<^verbatim>\<open>subscribeToUpdates\<close>)\<close>

text \<open>
  The two \<^verbatim>\<open>INSERT\<close> callbacks of the subscription, as transitions of the state:
  \<^verbatim>\<open>setPoints(prev => [...prev, payload.new])\<close> and
  \<^verbatim>\<open>setTrips(prev => [payload.new, ...prev])\<close>.
\<close>

datatype 'a event = InsertTripData "'a point_scheme" | InsertTrips trip

fun subscribeToUpdates :: "'a state \<Rightarrow> 'a event \<Rightarrow> 'a state" where
  "subscribeToUpdates st (InsertTripData new) = st\<lparr>points := points st @ [new]\<rparr>"
| "subscribeToUpdates st (InsertTrips new) = st\<lparr>trips := new # trips st\<rparr>"

definition apply_events :: "'a state \<Rightarrow> 'a event list \<Rightarrow> 'a state" where
  "apply_events st evs = foldl subscribeToUpdates st evs"

text \<open>The trips announced by a sequence of push events, in arrival order.\<close>

fun pushed_trips :: "'a event list \<Rightarrow> trip list" where
  "pushed_trips [] = []"
| "pushed_trips (InsertTrips t # evs) = t # pushed_trips evs"
| "pushed_trips (InsertTripData p # evs) = pushed_trips evs"

section \<open>JavaScript values and plain objects\<close>

text \<open>
  \<^verbatim>\<open>x || d\<close> yields \<open>d\<close> when \<open>x\<close> is falsy: \<^verbatim>\<open>null\<close>, \<^verbatim>\<open>0\<close> or the empty string.
\<close>

definition truthy :: "string \<Rightarrow> bool" where
  "truthy s = (s \<noteq> [])"

definition or_zero :: "int option \<Rightarrow> int" where
  "or_zero x = (case x of None \<Rightarrow> 0 | Some n \<Rightarrow> if n = 0 then 0 else n)"

definition or_default :: "string option \<Rightarrow> string \<Rightarrow> string" where
  "or_default x d = (case x of None \<Rightarrow> d | Some s \<Rightarrow> if truthy s then s else d)"

text \<open>
  A number is an IEEE 754 double. The counts are integers, and the sum of two integers
  is the double nearest to the exact sum, a tie going to the even significand: exact up
  to \<open>2 ^ 53\<close> in magnitude, and beyond that a multiple of the spacing of the doubles of
  that size. (Magnitudes from \<open>2 ^ 1024\<close> on, which overflow to \<^verbatim>\<open>Infinity\<close>, are outside this
  model.)
\<close>

fun bit_length :: "nat \<Rightarrow> nat" where
  "bit_length n = (if n = 0 then 0 else Suc (bit_length (n div 2)))"

declare bit_length.simps [simp del]

definition round_double :: "int \<Rightarrow> int" where
  "round_double x =
     (if \<bar>x\<bar> \<le> 2 ^ 53 then x
      else
        (let m = nat \<bar>x\<bar>;
             u = 2 ^ (bit_length m - 53);
             q = m div u;
             r = m mod u;
             n = (if 2 * r < u \<or> (2 * r = u \<and> even q) then q * u else (q + 1) * u)
         in if x < 0 then - int n else int n))"

text \<open>\<^verbatim>\<open>a + b\<close> on two such numbers.\<close>

definition js_add :: "int \<Rightarrow> int \<Rightarrow> int" where
  "js_add a b = round_double (a + b)"

text \<open>
  The histograms \<^verbatim>\<open>dangerTypes\<close> and \<^verbatim>\<open>healthStatus\<close> and the layer switches
  \<^verbatim>\<open>activeLayers\<close> are plain objects (\<^verbatim>\<open>{}\<close> literals), so a property read that finds no
  own property continues in \<^verbatim>\<open>Object.prototype\<close>. \<open>inherited k\<close> is the value found
  there, given by the string that \<^verbatim>\<open>+\<close> converts it to: the built-in methods are
  functions, \<^verbatim>\<open>__proto__\<close> is an accessor whose getter returns the prototype object
  itself. All of them are truthy.
\<close>

definition inherited :: "string \<Rightarrow> string option" where
  "inherited k =
     (if k = ''constructor'' then Some ''function Object() { [native code] }''
      else if k = ''__proto__'' then Some ''[object Object]''
      else if k \<in> set
          [''__defineGetter__'', ''__defineSetter__'', ''hasOwnProperty'', ''__lookupGetter__'',
           ''__lookupSetter__'', ''isPrototypeOf'', ''propertyIsEnumerable'', ''toString'',
           ''valueOf'', ''toLocaleString'']
      then Some (''function '' @ k @ ''() { [native code] }'')
      else None)"

text \<open>
  A histogram slot holds a number, or a string once \<^verbatim>\<open>+ 1\<close> has concatenated. The own
  properties of a histogram are an association list in insertion order
  (\<^verbatim>\<open>Object.keys\<close> and \<^verbatim>\<open>Object.values\<close> are \<open>map fst\<close> and \<open>map snd\<close> of it, up to the
  engine's placement of integer-like keys, on which nothing below depends).
\<close>

datatype jsval = Num int | Str string

type_synonym histogram = "(string \<times> jsval) list"

text \<open>\<^verbatim>\<open>(m[k] || 0) + 1\<close> where \<open>m\<close> gives the own properties.\<close>

definition plus_one :: "(string \<rightharpoonup> jsval) \<Rightarrow> string \<Rightarrow> jsval" where
  "plus_one m k =
     (case m k of
        Some (Num n) \<Rightarrow> Num ((if n = 0 then 0 else n) + 1)
      | Some (Str s) \<Rightarrow> if truthy s then Str (s @ ''1'') else Num 1
      | None \<Rightarrow> (case inherited k of Some s \<Rightarrow> Str (s @ ''1'') | None \<Rightarrow> Num 1))"

text \<open>
  \<^verbatim>\<open>obj[k] = v\<close> with a primitive \<open>v\<close>: an own data property is created or overwritten,
  except for the key \<^verbatim>\<open>__proto__\<close>, where the inherited setter runs and ignores a value
  that is neither an object nor \<^verbatim>\<open>null\<close>.
\<close>

definition assign :: "histogram \<Rightarrow> string \<Rightarrow> jsval \<Rightarrow> histogram" where
  "assign obj k v = (if k = ''__proto__'' then obj else AList.update k v obj)"

text \<open>\<^verbatim>\<open>obj[k] = (obj[k] || 0) + 1\<close>\<close>

definition count_in :: "histogram \<Rightarrow> string \<Rightarrow> histogram" where
  "count_in obj k = assign obj k (plus_one (map_of obj) k)"

text \<open>
  \<^verbatim>\<open>activeLayers[p.type]\<close> as a condition: the own switch if there is one, else whatever
  is inherited. A \<^verbatim>\<open>null\<close> type is the property key \<^verbatim>\<open>"null"\<close>.
\<close>

definition layer_on :: "(string \<rightharpoonup> bool) \<Rightarrow> string option \<Rightarrow> bool" where
  "layer_on layers ty =
     (let key = (case ty of None \<Rightarrow> ''null'' | Some s \<Rightarrow> s)
      in case layers key of Some b \<Rightarrow> b | None \<Rightarrow> inherited key \<noteq> None)"

text \<open>\<^verbatim>\<open>ids.includes(x)\<close> for an array of strings and a string or \<^verbatim>\<open>null\<close>.\<close>

definition includes_js :: "string list \<Rightarrow> string option \<Rightarrow> bool" where
  "includes_js ids x = (case x of None \<Rightarrow> False | Some s \<Rightarrow> s \<in> set ids)"

section \<open>Dates\<close>

text \<open>
  A \<^verbatim>\<open>Date\<close> is its time value: \<open>Some\<close> of the milliseconds since the epoch, or \<open>None\<close>
  for Invalid Date (time value \<^verbatim>\<open>NaN\<close>). \<^verbatim>\<open>a >= b\<close> and \<^verbatim>\<open>a <= b\<close> compare the time values,
  and every comparison with \<^verbatim>\<open>NaN\<close> is false.
\<close>

type_synonym jsdate = "int option"

definition date_ge :: "jsdate \<Rightarrow> jsdate \<Rightarrow> bool" where
  "date_ge a b = (case a of None \<Rightarrow> False | Some x \<Rightarrow> (case b of None \<Rightarrow> False | Some y \<Rightarrow> y \<le> x))"

definition date_le :: "jsdate \<Rightarrow> jsdate \<Rightarrow> bool" where
  "date_le a b = (case a of None \<Rightarrow> False | Some x \<Rightarrow> (case b of None \<Rightarrow> False | Some y \<Rightarrow> x \<le> y))"

text \<open>
  The three functions that the filter imports from the date library. The library is not
  part of the repository, so the filter takes them as a parameter. For a string,
  \<^verbatim>\<open>parseISO\<close> returns a \<^verbatim>\<open>Date\<close> (Invalid Date when the string does not parse). For \<^verbatim>\<open>null\<close>,
  versions 3 and 4 of the library call the argument's \<^verbatim>\<open>split\<close> method unchecked and so
  throw a \<^verbatim>\<open>TypeError\<close>; version 2 returned Invalid Date. The record gives the values
  returned; its \<open>parseISO\<close> at \<open>None\<close> is the value of version 2 and is read only by the
  functions that leave the exception out (\<open>in_range\<close>, \<open>date_stage\<close>, \<open>filteredPoints\<close>).
  The functions with the suffix \<open>_js\<close> below model the exception and never pass \<open>None\<close>
  to the record.
\<close>

record date_fns =
  parseISO :: "string option \<Rightarrow> jsdate"
  startOfDay :: "jsdate \<Rightarrow> jsdate"
  endOfDay :: "jsdate \<Rightarrow> jsdate"

datatype exn = TypeError

section \<open>The filter (\<^verbatim>\<open>filteredPoints\<close>)\<close>

text \<open>
  The four blocks of the \<^verbatim>\<open>useMemo\<close> body, each taking the current \<^verbatim>\<open>result\<close> and
  returning the next one. These are the values computed when no library call throws;
  the exception follows below.
\<close>

definition user_stage :: "'a state \<Rightarrow> 'a point_scheme list \<Rightarrow> 'a point_scheme list" where
  "user_stage st result =
     (if filterUser st \<noteq> ''all'' then
        (let userTripIds = map id_t (filter (\<lambda>t. user_id t = Some (filterUser st)) (trips st))
         in filter (\<lambda>p. includes_js userTripIds (trip_id p)) result)
      else result)"

definition in_range :: "date_fns \<Rightarrow> 'a state \<Rightarrow> 'a point_scheme \<Rightarrow> bool" where
  "in_range L st p =
     (let pDate = parseISO L (created_at p) in
      if truthy (filterStartDate st) \<and> truthy (filterEndDate st) then
        date_ge pDate (startOfDay L (parseISO L (Some (filterStartDate st)))) \<and>
        date_le pDate (endOfDay L (parseISO L (Some (filterEndDate st))))
      else if truthy (filterStartDate st) then
        date_ge pDate (startOfDay L (parseISO L (Some (filterStartDate st))))
      else
        date_le pDate (endOfDay L (parseISO L (Some (filterEndDate st)))))"

definition date_stage ::
  "date_fns \<Rightarrow> 'a state \<Rightarrow> 'a point_scheme list \<Rightarrow> 'a point_scheme list" where
  "date_stage L st result =
     (if truthy (filterStartDate st) \<or> truthy (filterEndDate st) then
        filter (in_range L st) result
      else result)"

definition trip_stage :: "'a state \<Rightarrow> 'a point_scheme list \<Rightarrow> 'a point_scheme list" where
  "trip_stage st result =
     (if filterTrip st \<noteq> ''all'' then filter (\<lambda>p. trip_id p = Some (filterTrip st)) result
      else result)"

definition type_stage :: "'a state \<Rightarrow> 'a point_scheme list \<Rightarrow> 'a point_scheme list" where
  "type_stage st result = filter (\<lambda>p. layer_on (activeLayers st) (type p)) result"

definition filteredPoints :: "date_fns \<Rightarrow> 'a state \<Rightarrow> 'a point_scheme list" where
  "filteredPoints L st = type_stage st (trip_stage st (date_stage L st (user_stage st (points st))))"

text \<open>
  The same with the exception. \<^verbatim>\<open>result.filter(callback)\<close> calls the callback on the
  elements in order and is abandoned by the first call that throws.
\<close>

fun filter_js :: "('a \<Rightarrow> exn + bool) \<Rightarrow> 'a list \<Rightarrow> exn + 'a list" where
  "filter_js f [] = Inr []"
| "filter_js f (x # xs) =
     (case f x of
        Inl e \<Rightarrow> Inl e
      | Inr keep \<Rightarrow>
          (case filter_js f xs of
             Inl e \<Rightarrow> Inl e
           | Inr ys \<Rightarrow> Inr (if keep then x # ys else ys)))"

text \<open>
  The callback of the date block starts with \<^verbatim>\<open>parseISO(p.created_at)\<close>, unguarded: a
  \<^verbatim>\<open>null\<close> timestamp throws. The other calls of \<^verbatim>\<open>parseISO\<close> get the strings of the two
  date inputs.
\<close>

definition in_range_js :: "date_fns \<Rightarrow> 'a state \<Rightarrow> 'a point_scheme \<Rightarrow> exn + bool" where
  "in_range_js L st p =
     (case created_at p of None \<Rightarrow> Inl TypeError | Some s \<Rightarrow> Inr (in_range L st p))"

definition date_stage_js ::
  "date_fns \<Rightarrow> 'a state \<Rightarrow> 'a point_scheme list \<Rightarrow> exn + 'a point_scheme list" where
  "date_stage_js L st result =
     (if truthy (filterStartDate st) \<or> truthy (filterEndDate st) then
        filter_js (in_range_js L st) result
      else Inr result)"

definition filteredPoints_js :: "date_fns \<Rightarrow> 'a state \<Rightarrow> exn + 'a point_scheme list" where
  "filteredPoints_js L st =
     (case date_stage_js L st (user_stage st (points st)) of
        Inl e \<Rightarrow> Inl e
      | Inr result \<Rightarrow> Inr (type_stage st (trip_stage st result)))"

text \<open>
  The four blocks by name, to run them in another order: with the exception
  (\<open>run_stages_js\<close>) and as values (\<open>run_stages\<close>).
\<close>

datatype stage = UserStage | DateStage | TripStage | TypeStage

fun stage_js ::
  "date_fns \<Rightarrow> 'a state \<Rightarrow> stage \<Rightarrow> 'a point_scheme list \<Rightarrow> exn + 'a point_scheme list" where
  "stage_js L st UserStage result = Inr (user_stage st result)"
| "stage_js L st DateStage result = date_stage_js L st result"
| "stage_js L st TripStage result = Inr (trip_stage st result)"
| "stage_js L st TypeStage result = Inr (type_stage st result)"

fun run_stages_js ::
  "date_fns \<Rightarrow> 'a state \<Rightarrow> stage list \<Rightarrow> 'a point_scheme list \<Rightarrow> exn + 'a point_scheme list" where
  "run_stages_js L st [] result = Inr result"
| "run_stages_js L st (s # ss) result =
     (case stage_js L st s result of
        Inl e \<Rightarrow> Inl e
      | Inr next_result \<Rightarrow> run_stages_js L st ss next_result)"

fun stage_value ::
  "date_fns \<Rightarrow> 'a state \<Rightarrow> stage \<Rightarrow> 'a point_scheme list \<Rightarrow> 'a point_scheme list" where
  "stage_value L st UserStage = user_stage st"
| "stage_value L st DateStage = date_stage L st"
| "stage_value L st TripStage = trip_stage st"
| "stage_value L st TypeStage = type_stage st"

definition run_stages ::
  "date_fns \<Rightarrow> 'a state \<Rightarrow> stage list \<Rightarrow> 'a point_scheme list \<Rightarrow> 'a point_scheme list" where
  "run_stages L st ss result = fold (stage_value L st) ss result"

definition canonical_order :: "stage list" where
  "canonical_order = [UserStage, DateStage, TripStage, TypeStage]"

section \<open>The statistics (\<^verbatim>\<open>stats\<close>)\<close>

record acc =
  adults :: int
  calves :: int
  danger :: int
  dangerTypes :: histogram
  healthStatus :: histogram

text \<open>
  The callback of \<^verbatim>\<open>reduce\<close>. The two sums of counts are sums of doubles. The hazard count
  and the histogram slots grow by one per element of an array, which has fewer than
  \<open>2 ^ 32\<close> elements, so they stay in the exact range and \<open>+ 1\<close> is the integer's.
\<close>

definition reducer :: "acc \<Rightarrow> 'a point_scheme \<Rightarrow> acc" where
  "reducer a cur =
     (if type cur = Some ''Avistamiento'' then
        a\<lparr>adults := js_add (acc.adults a) (or_zero (point.adults cur)),
          calves := js_add (acc.calves a) (or_zero (point.calves cur))\<rparr>
      else if type cur = Some ''Peligro'' then
        (let dType = or_default (danger_type cur) ''Desconocido'';
             hStatus = or_default (health_status cur) ''Desconocido''
         in a\<lparr>danger := danger a + 1,
              dangerTypes := count_in (dangerTypes a) dType,
              healthStatus := count_in (healthStatus a) hStatus\<rparr>)
      else a)"

definition stats :: "'a point_scheme list \<Rightarrow> acc" where
  "stats pts =
     foldl reducer \<lparr>adults = 0, calves = 0, danger = 0, dangerTypes = [], healthStatus = []\<rparr> pts"

text \<open>
  The readings of a histogram that the claims speak of: the mapping from category to
  slot, and the sum of the slots that are counts.
\<close>

definition slot_count :: "jsval \<Rightarrow> int" where
  "slot_count v = (case v of Num n \<Rightarrow> n | Str s \<Rightarrow> 0)"

definition sum_counts :: "histogram \<Rightarrow> int" where
  "sum_counts h = sum_list (map (\<lambda>kv. slot_count (snd kv)) h)"

text \<open>
  The same counting step on the mapping alone, and the hazard count and the histograms
  of the accumulator, the histograms as mappings (entry order forgotten).
\<close>

definition count_map :: "(string \<rightharpoonup> jsval) \<Rightarrow> string \<Rightarrow> (string \<rightharpoonup> jsval)" where
  "count_map m k = (if k = ''__proto__'' then m else m(k \<mapsto> plus_one m k))"

definition view :: "acc \<Rightarrow> int \<times> (string \<rightharpoonup> jsval) \<times> (string \<rightharpoonup> jsval)" where
  "view a = (danger a, map_of (dangerTypes a), map_of (healthStatus a))"

text \<open>A point with an empty hazard category or health status replaced by an absent one.\<close>

definition empty_as_absent :: "'a point_scheme \<Rightarrow> 'a point_scheme" where
  "empty_as_absent p =
     p\<lparr>danger_type := (if danger_type p = Some [] then None else danger_type p),
       health_status := (if health_status p = Some [] then None else health_status p)\<rparr>"

text \<open>The reducer on views.\<close>

definition view_step ::
  "'a point_scheme \<Rightarrow> int \<times> (string \<rightharpoonup> jsval) \<times> (string \<rightharpoonup> jsval)
    \<Rightarrow> int \<times> (string \<rightharpoonup> jsval) \<times> (string \<rightharpoonup> jsval)" where
  "view_step cur v =
     (case v of (d, dt, hs) \<Rightarrow>
        if type cur = Some ''Avistamiento'' then (d, dt, hs)
        else if type cur = Some ''Peligro'' then
          (d + 1, count_map dt (or_default (danger_type cur) ''Desconocido''),
           count_map hs (or_default (health_status cur) ''Desconocido''))
        else (d, dt, hs))"

text \<open>
  The adult counts and the calf counts that the reducer adds up, in the order of the
  input, and the sum of the magnitudes of a list of numbers.
\<close>

definition adult_counts :: "'a point_scheme list \<Rightarrow> int list" where
  "adult_counts pts =
     map (\<lambda>p. or_zero (point.adults p)) (filter (\<lambda>p. type p = Some ''Avistamiento'') pts)"

definition calf_counts :: "'a point_scheme list \<Rightarrow> int list" where
  "calf_counts pts =
     map (\<lambda>p. or_zero (point.calves p)) (filter (\<lambda>p. type p = Some ''Avistamiento'') pts)"

definition magnitude :: "int list \<Rightarrow> int" where
  "magnitude ns = sum_list (map abs ns)"

text \<open>
  A histogram all of whose slots are numbers, and a point whose two categories (after
  defaulting) are not names of inherited properties.
\<close>

definition all_counts :: "histogram \<Rightarrow> bool" where
  "all_counts h = list_all (\<lambda>kv. case snd kv of Num n \<Rightarrow> True | Str s \<Rightarrow> False) h"

definition plain_categories :: "'a point_scheme \<Rightarrow> bool" where
  "plain_categories p =
     (inherited (or_default (danger_type p) ''Desconocido'') = None \<and>
      inherited (or_default (health_status p) ''Desconocido'') = None)"

section \<open>The date library in a zone of fixed offset\<close>

text \<open>
  For the scenarios with concrete dates, the three library functions as the library
  documents them, in a runtime whose local time zone is \<open>tz\<close> minutes east of UTC all year
  (no daylight saving). \<^verbatim>\<open>parseISO\<close> is given on the extended calendar format with whole
  seconds only: \<^verbatim>\<open>YYYY-MM-DD\<close>, optionally followed by \<^verbatim>\<open>T\<close> or a space, \<^verbatim>\<open>HH:MM:SS\<close> and
  a zone (\<^verbatim>\<open>Z\<close> or \<^verbatim>\<open>+HH:MM\<close> or \<^verbatim>\<open>-HH:MM\<close>). A string without a zone is a local time; so is
  a date alone, which is local midnight. Every other string gives Invalid Date here,
  though the library reads further ISO 8601 forms (fractions of a second, zones without
  colon, times without seconds, week and ordinal dates, the basic format); no general
  theorem depends on which strings parse, since the filter takes the library as a
  parameter. At \<open>None\<close> the value is Invalid Date, as said at the record \<open>date_fns\<close>.
\<close>

definition digit :: "char \<Rightarrow> int option" where
  "digit c =
     (let code = (of_char c :: nat)
      in if 48 \<le> code \<and> code \<le> 57 then Some (int code - 48) else None)"

fun number :: "int \<Rightarrow> string \<Rightarrow> int option" where
  "number n [] = Some n"
| "number n (c # cs) = (case digit c of None \<Rightarrow> None | Some d \<Rightarrow> number (10 * n + d) cs)"

text \<open>A field of exactly \<open>k\<close> digits.\<close>

definition digits :: "nat \<Rightarrow> string \<Rightarrow> int option" where
  "digits k s = (if length s = k then number 0 s else None)"

definition leap_year :: "int \<Rightarrow> bool" where
  "leap_year y = (y mod 400 = 0 \<or> (y mod 4 = 0 \<and> y mod 100 \<noteq> 0))"

definition days_in_month :: "int \<Rightarrow> int \<Rightarrow> int" where
  "days_in_month y m =
     (if m = 2 then (if leap_year y then 29 else 28)
      else if m = 4 \<or> m = 6 \<or> m = 9 \<or> m = 11 then 30 else 31)"

text \<open>Days from 1970-01-01 to the given day of the proleptic Gregorian calendar.\<close>

definition days_from_civil :: "int \<Rightarrow> int \<Rightarrow> int \<Rightarrow> int" where
  "days_from_civil y m d =
     (let y' = (if m \<le> 2 then y - 1 else y);
          era = y' div 400;
          yoe = y' - era * 400;
          doy = (153 * (if m > 2 then m - 3 else m + 9) + 2) div 5 + d - 1;
          doe = yoe * 365 + yoe div 4 - yoe div 100 + doy
      in era * 146097 + doe - 719468)"

text \<open>\<^verbatim>\<open>YYYY-MM-DD\<close> to the milliseconds of that day's midnight in UTC.\<close>

definition parse_date :: "string \<Rightarrow> int option" where
  "parse_date s =
     (if length s = 10 \<and> s ! 4 = CHR ''-'' \<and> s ! 7 = CHR ''-'' then
        (case digits 4 (take 4 s) of None \<Rightarrow> None | Some y \<Rightarrow>
          (case digits 2 (take 2 (drop 5 s)) of None \<Rightarrow> None | Some m \<Rightarrow>
            (case digits 2 (drop 8 s) of None \<Rightarrow> None | Some d \<Rightarrow>
               if 1 \<le> m \<and> m \<le> 12 \<and> 1 \<le> d \<and> d \<le> days_in_month y m
               then Some (days_from_civil y m d * 86400000) else None)))
      else None)"

text \<open>\<^verbatim>\<open>HH:MM:SS\<close> to milliseconds; the library accepts \<^verbatim>\<open>24:00:00\<close>.\<close>

definition parse_time :: "string \<Rightarrow> int option" where
  "parse_time s =
     (if length s = 8 \<and> s ! 2 = CHR '':'' \<and> s ! 5 = CHR '':'' then
        (case digits 2 (take 2 s) of None \<Rightarrow> None | Some h \<Rightarrow>
          (case digits 2 (take 2 (drop 3 s)) of None \<Rightarrow> None | Some m \<Rightarrow>
            (case digits 2 (drop 6 s) of None \<Rightarrow> None | Some sec \<Rightarrow>
               if (if h = 24 then m = 0 \<and> sec = 0 else h < 25 \<and> m < 60 \<and> sec < 60)
               then Some (h * 3600000 + m * 60000 + sec * 1000) else None)))
      else None)"

text \<open>
  The zone designator to the milliseconds that the zone is ahead of UTC; the empty
  designator is the local zone.
\<close>

definition parse_zone :: "int \<Rightarrow> string \<Rightarrow> int option" where
  "parse_zone tz s =
     (if s = [] then Some (tz * 60000)
      else if s = ''Z'' then Some 0
      else if length s = 6 \<and> (s ! 0 = CHR ''+'' \<or> s ! 0 = CHR ''-'') \<and> s ! 3 = CHR '':'' then
        (case digits 2 (take 2 (drop 1 s)) of None \<Rightarrow> None | Some h \<Rightarrow>
          (case digits 2 (drop 4 s) of None \<Rightarrow> None | Some m \<Rightarrow>
             if m \<le> 59
             then Some ((if s ! 0 = CHR ''+'' then 1 else - 1) * (h * 3600000 + m * 60000))
             else None))
      else None)"

definition parseISO_local :: "int \<Rightarrow> string option \<Rightarrow> jsdate" where
  "parseISO_local tz argument =
     (case argument of None \<Rightarrow> None | Some s \<Rightarrow>
       (case parse_date (take 10 s) of None \<Rightarrow> None | Some day \<Rightarrow>
          if length s = 10 then Some (day - tz * 60000)
          else if s ! 10 = CHR ''T'' \<or> s ! 10 = CHR '' '' then
            (case parse_time (take 8 (drop 11 s)) of None \<Rightarrow> None | Some time \<Rightarrow>
              (case parse_zone tz (drop 19 s) of None \<Rightarrow> None | Some ahead \<Rightarrow>
                 Some (day + time - ahead)))
          else None))"

text \<open>
  \<^verbatim>\<open>startOfDay\<close> and \<^verbatim>\<open>endOfDay\<close> set the local clock time of the date to 00:00:00.000 and
  to 23:59:59.999; an Invalid Date stays invalid.
\<close>

definition startOfDay_local :: "int \<Rightarrow> jsdate \<Rightarrow> jsdate" where
  "startOfDay_local tz date =
     (case date of None \<Rightarrow> None
      | Some t \<Rightarrow> Some ((t + tz * 60000) div 86400000 * 86400000 - tz * 60000))"

definition endOfDay_local :: "int \<Rightarrow> jsdate \<Rightarrow> jsdate" where
  "endOfDay_local tz date =
     (case date of None \<Rightarrow> None
      | Some t \<Rightarrow> Some ((t + tz * 60000) div 86400000 * 86400000 + 86399999 - tz * 60000))"

definition local_date_fns :: "int \<Rightarrow> date_fns" where
  "local_date_fns tz =
     \<lparr>parseISO = parseISO_local tz, startOfDay = startOfDay_local tz,
      endOfDay = endOfDay_local tz\<rparr>"

section \<open>Evaluation rules\<close>

lemmas stats_eval = stats_def reducer_def count_in_def assign_def plus_one_def or_zero_def
  js_add_def round_double_def
  or_default_def truthy_def inherited_def null_row_def Let_def

lemmas date_eval = local_date_fns_def parseISO_local_def parse_date_def parse_time_def
  parse_zone_def digits_def digit_def days_from_civil_def days_in_month_def leap_year_def
  startOfDay_local_def endOfDay_local_def date_ge_def date_le_def in_range_def date_stage_def
  truthy_def null_row_def initial_state_def

lemmas filter_eval = filteredPoints_def user_stage_def trip_stage_def type_stage_def
  includes_js_def layer_on_def inherited_def

section \<open>Numbers\<close>

lemma round_double_exact: "\<bar>x\<bar> \<le> 2 ^ 53 \<Longrightarrow> round_double x = x"
  by (simp add: round_double_def)

lemma js_add_exact: "\<bar>a + b\<bar> \<le> 2 ^ 53 \<Longrightarrow> js_add a b = a + b"
  by (simp add: js_add_def round_double_exact)

lemma bit_length_numeral:
  "bit_length (Suc 0) = Suc 0"
  "bit_length (numeral (Num.Bit0 k)) = Suc (bit_length (numeral k))"
  "bit_length (numeral (Num.Bit1 k)) = Suc (bit_length (numeral k))"
  by (simp_all add: bit_length.simps [of 0] bit_length.simps [of "Suc 0"]
      bit_length.simps [of "numeral (Num.Bit0 k)"] bit_length.simps [of "numeral (Num.Bit1 k)"])

text \<open>\<open>2 ^ 53 + 1\<close> lies halfway between two doubles and goes to the even one.\<close>

lemma round_double_tie: "round_double 9007199254740993 = 9007199254740992"
  by (simp add: round_double_def bit_length_numeral Let_def)

lemma round_double_even: "round_double 9007199254740994 = 9007199254740994"
  by (simp add: round_double_def bit_length_numeral Let_def)

section \<open>Push events\<close>

lemma trips_foldl_subscribe:
  "trips (foldl subscribeToUpdates st evs) = rev (pushed_trips evs) @ trips st"
proof (induction evs arbitrary: st)
  case Nil
  show ?case by simp
next
  case (Cons ev evs)
  show ?case by (cases ev) (simp_all add: Cons.IH)
qed

text \<open>
  C1 (as stated): a pushed trip is appended to the end of the trip collection. The
  handler puts it at the front: with one fetched trip \<open>a\<close> and one pushed trip \<open>b\<close> the
  collection is \<open>[b, a]\<close>, not \<open>[a, b]\<close>.
\<close>

theorem C1_append_counterexample:
  "trips (apply_events
      (initial_state\<lparr>trips := [\<lparr>id_t = ''a'', user_id = None, start_time = None\<rparr>]\<rparr>)
      [InsertTrips \<lparr>id_t = ''b'', user_id = None, start_time = None\<rparr>])
   = [\<lparr>id_t = ''b'', user_id = None, start_time = None\<rparr>,
      \<lparr>id_t = ''a'', user_id = None, start_time = None\<rparr>]
   \<and> trips (apply_events
      (initial_state\<lparr>trips := [\<lparr>id_t = ''a'', user_id = None, start_time = None\<rparr>]\<rparr>)
      [InsertTrips \<lparr>id_t = ''b'', user_id = None, start_time = None\<rparr>])
   \<noteq> [\<lparr>id_t = ''a'', user_id = None, start_time = None\<rparr>]
      @ [\<lparr>id_t = ''b'', user_id = None, start_time = None\<rparr>]"
  by (simp add: apply_events_def initial_state_def)

text \<open>
  C1 (amended): every pushed trip is put at the front of the trip collection, so after
  any sequence of push events the collection holds the pushed trips, latest first,
  followed by the trips that were there before.
\<close>

theorem C1_trips_prepended:
  "trips (apply_events st evs) = rev (pushed_trips evs) @ trips st"
  by (simp add: apply_events_def trips_foldl_subscribe)

section \<open>The statistics\<close>

text \<open>
  C2 (as stated): on the three points of the scenario the health histogram is
  \<open>{injured: 1, Unknown: 1}\<close>. The default category of the source is the literal
  \<^verbatim>\<open>'Desconocido'\<close>: the histogram has no entry \<open>Unknown\<close>.
\<close>

theorem C2_unknown_counterexample:
  "map_of (healthStatus (stats
      [null_row\<lparr>type := Some ''Avistamiento'', point.adults := Some 2, point.calves := Some 1\<rparr>,
       null_row\<lparr>type := Some ''Peligro'', danger_type := Some ''net'',
         health_status := Some ''injured''\<rparr>,
       null_row\<lparr>type := Some ''Peligro'', danger_type := Some ''net''\<rparr>])) ''Unknown'' = None"
  by (simp add: stats_eval)

text \<open>
  C2 (amended): on the sighting (\<^verbatim>\<open>'Avistamiento'\<close>) with 2 adults and 1 calf, the hazard
  (\<^verbatim>\<open>'Peligro'\<close>) of category \<open>net\<close> and status \<open>injured\<close>, and the hazard of category \<open>net\<close>
  without status, the statistics are 2 adults, 1 calf, 2 hazards, the category histogram
  \<open>{net: 2}\<close> and the health histogram \<open>{injured: 1, Desconocido: 1}\<close>.
\<close>

theorem C2_scenario:
  "stats
      [null_row\<lparr>type := Some ''Avistamiento'', point.adults := Some 2, point.calves := Some 1\<rparr>,
       null_row\<lparr>type := Some ''Peligro'', danger_type := Some ''net'',
         health_status := Some ''injured''\<rparr>,
       null_row\<lparr>type := Some ''Peligro'', danger_type := Some ''net''\<rparr>]
   = \<lparr>adults = 2, calves = 1, danger = 2, dangerTypes = [(''net'', Num 2)],
      healthStatus = [(''injured'', Num 1), (''Desconocido'', Num 1)]\<rparr>"
  by (simp add: stats_eval)

subsection \<open>Order of the input\<close>

lemma map_of_count_in: "map_of (count_in obj k) = count_map (map_of obj) k"
  by (simp add: count_in_def count_map_def assign_def update_conv')

lemma plus_one_other: "k \<noteq> k' \<Longrightarrow> plus_one (m(k \<mapsto> v)) k' = plus_one m k'"
  by (simp add: plus_one_def)

lemma count_map_commute: "count_map (count_map m k) k' = count_map (count_map m k') k"
proof (cases "k = k'")
  case True
  then show ?thesis by simp
next
  case False
  then show ?thesis
    by (auto simp add: count_map_def plus_one_other fun_upd_twist)
qed

lemma view_reducer: "view (reducer a cur) = view_step cur (view a)"
  by (simp add: view_def reducer_def view_step_def map_of_count_in Let_def)

lemma view_foldl: "view (foldl reducer a pts) = fold view_step pts (view a)"
  by (induction pts arbitrary: a) (simp_all add: view_reducer)

lemma view_step_commute: "view_step p \<circ> view_step q = view_step q \<circ> view_step p"
proof (rule ext)
  fix v :: "int \<times> (string \<rightharpoonup> jsval) \<times> (string \<rightharpoonup> jsval)"
  obtain d dt hs where v: "v = (d, dt, hs)" by (cases v)
  show "(view_step p \<circ> view_step q) v = (view_step q \<circ> view_step p) v"
    by (simp add: v view_step_def count_map_commute [of dt] count_map_commute [of hs])
qed

lemma view_stats_permuted:
  assumes "mset xs = mset ys"
  shows "view (stats xs) = view (stats ys)"
proof -
  have "fold view_step xs = fold view_step ys"
    using view_step_commute assms by (rule fold_multiset_equiv)
  then show ?thesis by (simp add: stats_def view_foldl)
qed

text \<open>
  The two sums of doubles are the exact sums as long as the magnitudes of the addends
  sum to at most \<open>2 ^ 53\<close>: then every partial sum, in any order, is in the exact range.
\<close>

lemma magnitude_Cons: "magnitude (n # ns) = \<bar>n\<bar> + magnitude ns"
  by (simp add: magnitude_def)

lemma magnitude_nonneg: "0 \<le> magnitude ns"
  by (induction ns) (simp_all add: magnitude_def)

lemma adults_foldl_exact:
  "\<bar>acc.adults a\<bar> + magnitude (adult_counts pts) \<le> 2 ^ 53 \<Longrightarrow>
   acc.adults (foldl reducer a pts) = acc.adults a + sum_list (adult_counts pts)"
proof (induction pts arbitrary: a)
  case Nil
  show ?case by (simp add: adult_counts_def)
next
  case (Cons p pts)
  show ?case
  proof (cases "type p = Some ''Avistamiento''")
    case True
    let ?n = "or_zero (point.adults p)"
    have counts: "adult_counts (p # pts) = ?n # adult_counts pts"
      using True by (simp add: adult_counts_def)
    have bound: "\<bar>acc.adults a\<bar> + \<bar>?n\<bar> + magnitude (adult_counts pts) \<le> 2 ^ 53"
      using Cons.prems by (simp add: counts magnitude_Cons)
    have "\<bar>acc.adults a + ?n\<bar> \<le> 2 ^ 53"
      using bound magnitude_nonneg [of "adult_counts pts"] by linarith
    then have step: "acc.adults (reducer a p) = acc.adults a + ?n"
      using True by (simp add: reducer_def js_add_exact)
    have "\<bar>acc.adults (reducer a p)\<bar> + magnitude (adult_counts pts) \<le> 2 ^ 53"
      using bound by (simp add: step)
    from Cons.IH [OF this] show ?thesis by (simp add: step counts)
  next
    case False
    have counts: "adult_counts (p # pts) = adult_counts pts"
      using False by (simp add: adult_counts_def)
    have step: "acc.adults (reducer a p) = acc.adults a"
      using False by (simp add: reducer_def Let_def)
    have "\<bar>acc.adults (reducer a p)\<bar> + magnitude (adult_counts pts) \<le> 2 ^ 53"
      using Cons.prems by (simp add: step counts)
    from Cons.IH [OF this] show ?thesis by (simp add: step counts)
  qed
qed

lemma calves_foldl_exact:
  "\<bar>acc.calves a\<bar> + magnitude (calf_counts pts) \<le> 2 ^ 53 \<Longrightarrow>
   acc.calves (foldl reducer a pts) = acc.calves a + sum_list (calf_counts pts)"
proof (induction pts arbitrary: a)
  case Nil
  show ?case by (simp add: calf_counts_def)
next
  case (Cons p pts)
  show ?case
  proof (cases "type p = Some ''Avistamiento''")
    case True
    let ?n = "or_zero (point.calves p)"
    have counts: "calf_counts (p # pts) = ?n # calf_counts pts"
      using True by (simp add: calf_counts_def)
    have bound: "\<bar>acc.calves a\<bar> + \<bar>?n\<bar> + magnitude (calf_counts pts) \<le> 2 ^ 53"
      using Cons.prems by (simp add: counts magnitude_Cons)
    have "\<bar>acc.calves a + ?n\<bar> \<le> 2 ^ 53"
      using bound magnitude_nonneg [of "calf_counts pts"] by linarith
    then have step: "acc.calves (reducer a p) = acc.calves a + ?n"
      using True by (simp add: reducer_def js_add_exact)
    have "\<bar>acc.calves (reducer a p)\<bar> + magnitude (calf_counts pts) \<le> 2 ^ 53"
      using bound by (simp add: step)
    from Cons.IH [OF this] show ?thesis by (simp add: step counts)
  next
    case False
    have counts: "calf_counts (p # pts) = calf_counts pts"
      using False by (simp add: calf_counts_def)
    have step: "acc.calves (reducer a p) = acc.calves a"
      using False by (simp add: reducer_def Let_def)
    have "\<bar>acc.calves (reducer a p)\<bar> + magnitude (calf_counts pts) \<le> 2 ^ 53"
      using Cons.prems by (simp add: step counts)
    from Cons.IH [OF this] show ?thesis by (simp add: step counts)
  qed
qed

lemma stats_adults_exact:
  "magnitude (adult_counts pts) \<le> 2 ^ 53 \<Longrightarrow> acc.adults (stats pts) = sum_list (adult_counts pts)"
  unfolding stats_def using adults_foldl_exact [of _ pts] by simp

lemma stats_calves_exact:
  "magnitude (calf_counts pts) \<le> 2 ^ 53 \<Longrightarrow> acc.calves (stats pts) = sum_list (calf_counts pts)"
  unfolding stats_def using calves_foldl_exact [of _ pts] by simp

lemma sum_list_permuted: "mset ms = mset ns \<Longrightarrow> sum_list ms = sum_list (ns :: int list)"
  by (metis sum_mset_sum_list)

lemma magnitude_permuted: "mset ms = mset ns \<Longrightarrow> magnitude ms = magnitude ns"
  unfolding magnitude_def by (rule sum_list_permuted) (metis mset_map)

lemma counts_permuted:
  assumes "mset xs = mset ys"
  shows "mset (adult_counts xs) = mset (adult_counts ys)"
    and "mset (calf_counts xs) = mset (calf_counts ys)"
  using assms by (simp_all add: adult_counts_def calf_counts_def)

text \<open>
  C6 (as stated): the statistics of every permutation of every sequence are the same.
  The sums of adults and calves are sums of doubles, which round beyond \<open>2 ^ 53\<close>: the
  sightings of \<open>2 ^ 53\<close>, 1 and 1 adults give \<open>2 ^ 53\<close> adults, the same sightings in the
  order 1, 1, \<open>2 ^ 53\<close> give \<open>2 ^ 53 + 2\<close>.
\<close>

theorem C6_rounding_counterexample:
  "mset
     [null_row\<lparr>type := Some ''Avistamiento'', point.adults := Some 9007199254740992\<rparr>,
      null_row\<lparr>type := Some ''Avistamiento'', point.adults := Some 1\<rparr>,
      null_row\<lparr>type := Some ''Avistamiento'', point.adults := Some 1\<rparr>]
   = mset
     [null_row\<lparr>type := Some ''Avistamiento'', point.adults := Some 1\<rparr>,
      null_row\<lparr>type := Some ''Avistamiento'', point.adults := Some 1\<rparr>,
      null_row\<lparr>type := Some ''Avistamiento'', point.adults := Some 9007199254740992\<rparr>]
   \<and> acc.adults (stats
     [null_row\<lparr>type := Some ''Avistamiento'', point.adults := Some 9007199254740992\<rparr>,
      null_row\<lparr>type := Some ''Avistamiento'', point.adults := Some 1\<rparr>,
      null_row\<lparr>type := Some ''Avistamiento'', point.adults := Some 1\<rparr>])
     = 9007199254740992
   \<and> acc.adults (stats
     [null_row\<lparr>type := Some ''Avistamiento'', point.adults := Some 1\<rparr>,
      null_row\<lparr>type := Some ''Avistamiento'', point.adults := Some 1\<rparr>,
      null_row\<lparr>type := Some ''Avistamiento'', point.adults := Some 9007199254740992\<rparr>])
     = 9007199254740994"
  by (simp add: stats_def reducer_def or_zero_def null_row_def js_add_def round_double_tie
      round_double_even round_double_exact)

text \<open>
  C6 (amended): for every filtered sequence in which the magnitudes of the adult counts
  of the sightings sum to at most \<open>2 ^ 53\<close>, and so do those of the calf counts, the
  statistics of every permutation of the sequence are the statistics of the sequence:
  the same adults, calves and hazard count, and histograms that map the same categories
  to the same slots. (The hazard count and the histograms are the same for every
  sequence; the order in which a histogram lists its entries is the order of first
  occurrence in the input.)
\<close>

theorem C6_order_independent:
  assumes "mset xs = mset ys"
    and "magnitude (adult_counts xs) \<le> 2 ^ 53"
    and "magnitude (calf_counts xs) \<le> 2 ^ 53"
  shows "acc.adults (stats xs) = acc.adults (stats ys) \<and>
         acc.calves (stats xs) = acc.calves (stats ys) \<and>
         danger (stats xs) = danger (stats ys) \<and>
         map_of (dangerTypes (stats xs)) = map_of (dangerTypes (stats ys)) \<and>
         map_of (healthStatus (stats xs)) = map_of (healthStatus (stats ys))"
proof -
  note perm = counts_permuted [OF assms(1)]
  have "magnitude (adult_counts ys) \<le> 2 ^ 53"
    using assms(2) magnitude_permuted [OF perm(1)] by simp
  then have adults: "acc.adults (stats xs) = acc.adults (stats ys)"
    using assms(2) sum_list_permuted [OF perm(1)] by (simp add: stats_adults_exact)
  have "magnitude (calf_counts ys) \<le> 2 ^ 53"
    using assms(3) magnitude_permuted [OF perm(2)] by simp
  then have calves: "acc.calves (stats xs) = acc.calves (stats ys)"
    using assms(3) sum_list_permuted [OF perm(2)] by (simp add: stats_calves_exact)
  from view_stats_permuted [OF assms(1)] adults calves show ?thesis
    by (simp add: view_def)
qed

text \<open>
  A sighting and two hazards of different categories, and the same points in reverse
  order.
\<close>

theorem C6_witness:
  "acc.adults (stats
      [null_row\<lparr>type := Some ''Avistamiento'', point.adults := Some 2\<rparr>,
       null_row\<lparr>type := Some ''Peligro'', danger_type := Some ''net''\<rparr>,
       null_row\<lparr>type := Some ''Peligro'', danger_type := Some ''boat''\<rparr>])
   = acc.adults (stats
      [null_row\<lparr>type := Some ''Peligro'', danger_type := Some ''boat''\<rparr>,
       null_row\<lparr>type := Some ''Peligro'', danger_type := Some ''net''\<rparr>,
       null_row\<lparr>type := Some ''Avistamiento'', point.adults := Some 2\<rparr>])
   \<and> map_of (dangerTypes (stats
      [null_row\<lparr>type := Some ''Avistamiento'', point.adults := Some 2\<rparr>,
       null_row\<lparr>type := Some ''Peligro'', danger_type := Some ''net''\<rparr>,
       null_row\<lparr>type := Some ''Peligro'', danger_type := Some ''boat''\<rparr>]))
   = map_of (dangerTypes (stats
      [null_row\<lparr>type := Some ''Peligro'', danger_type := Some ''boat''\<rparr>,
       null_row\<lparr>type := Some ''Peligro'', danger_type := Some ''net''\<rparr>,
       null_row\<lparr>type := Some ''Avistamiento'', point.adults := Some 2\<rparr>]))"
proof -
  let ?xs = "[null_row\<lparr>type := Some ''Avistamiento'', point.adults := Some 2\<rparr>,
       null_row\<lparr>type := Some ''Peligro'', danger_type := Some ''net''\<rparr>,
       null_row\<lparr>type := Some ''Peligro'', danger_type := Some ''boat''\<rparr>]"
  let ?ys = "[null_row\<lparr>type := Some ''Peligro'', danger_type := Some ''boat''\<rparr>,
       null_row\<lparr>type := Some ''Peligro'', danger_type := Some ''net''\<rparr>,
       null_row\<lparr>type := Some ''Avistamiento'', point.adults := Some 2\<rparr>]"
  have perm: "mset ?xs = mset ?ys"
    by simp
  have adults: "magnitude (adult_counts ?xs) \<le> 2 ^ 53"
    and calves: "magnitude (calf_counts ?xs) \<le> 2 ^ 53"
    by (simp_all add: magnitude_def adult_counts_def calf_counts_def or_zero_def null_row_def)
  from C6_order_independent [OF perm adults calves] show ?thesis by blast
qed

subsection \<open>Empty and absent categories\<close>

lemma or_default_empty_as_absent:
  "or_default (if x = Some [] then None else x) d = or_default x d"
  by (simp add: or_default_def truthy_def split: option.splits)

lemma reducer_empty_as_absent: "reducer a (empty_as_absent p) = reducer a p"
  by (simp add: reducer_def empty_as_absent_def or_default_empty_as_absent)

lemma foldl_reducer_empty_as_absent:
  "foldl reducer a (map empty_as_absent pts) = foldl reducer a pts"
  by (induction pts arbitrary: a) (simp_all add: reducer_empty_as_absent)

text \<open>
  C9 (as stated): a hazard whose category and health status are empty strings is counted
  in the bucket \<open>Unknown\<close>. It is counted in the bucket \<^verbatim>\<open>'Desconocido'\<close>; no bucket
  \<open>Unknown\<close> exists.
\<close>

theorem C9_unknown_counterexample:
  "map_of (dangerTypes (stats
      [null_row\<lparr>type := Some ''Peligro'', danger_type := Some [], health_status := Some []\<rparr>]))
      ''Unknown'' = None
   \<and> map_of (healthStatus (stats
      [null_row\<lparr>type := Some ''Peligro'', danger_type := Some [], health_status := Some []\<rparr>]))
      ''Unknown'' = None
   \<and> stats [null_row\<lparr>type := Some ''Peligro'', danger_type := Some [], health_status := Some []\<rparr>]
     = \<lparr>adults = 0, calves = 0, danger = 1, dangerTypes = [(''Desconocido'', Num 1)],
        healthStatus = [(''Desconocido'', Num 1)]\<rparr>"
  by (simp add: stats_eval)

text \<open>
  C9 (amended): for every input sequence, replacing each empty hazard category and each
  empty health status by an absent one leaves the statistics unchanged, and a hazard
  whose category (health status) is empty or absent is counted in the bucket
  \<^verbatim>\<open>'Desconocido'\<close> of the category (health) histogram.
\<close>

theorem C9_empty_like_absent:
  "stats (map empty_as_absent pts) = stats pts \<and>
   (type p = Some ''Peligro'' \<and> (danger_type p = Some [] \<or> danger_type p = None) \<longrightarrow>
      dangerTypes (stats (pts @ [p])) = count_in (dangerTypes (stats pts)) ''Desconocido'') \<and>
   (type p = Some ''Peligro'' \<and> (health_status p = Some [] \<or> health_status p = None) \<longrightarrow>
      healthStatus (stats (pts @ [p])) = count_in (healthStatus (stats pts)) ''Desconocido'')"
proof (intro conjI impI)
  show "stats (map empty_as_absent pts) = stats pts"
    by (simp add: stats_def foldl_reducer_empty_as_absent)
next
  assume "type p = Some ''Peligro'' \<and> (danger_type p = Some [] \<or> danger_type p = None)"
  then show "dangerTypes (stats (pts @ [p])) = count_in (dangerTypes (stats pts)) ''Desconocido''"
    by (auto simp add: stats_def reducer_def or_default_def truthy_def)
next
  assume "type p = Some ''Peligro'' \<and> (health_status p = Some [] \<or> health_status p = None)"
  then show "healthStatus (stats (pts @ [p])) = count_in (healthStatus (stats pts)) ''Desconocido''"
    by (auto simp add: stats_def reducer_def or_default_def truthy_def)
qed

text \<open>
  A hazard without category or status, then one with both empty: both fall into the
  bucket \<^verbatim>\<open>'Desconocido'\<close> of either histogram.
\<close>

theorem C9_witness:
  "dangerTypes (stats
      ([null_row\<lparr>type := Some ''Peligro''\<rparr>]
        @ [null_row\<lparr>type := Some ''Peligro'', danger_type := Some [], health_status := Some []\<rparr>]))
   = [(''Desconocido'', Num 2)]
   \<and> healthStatus (stats
      ([null_row\<lparr>type := Some ''Peligro''\<rparr>]
        @ [null_row\<lparr>type := Some ''Peligro'', danger_type := Some [], health_status := Some []\<rparr>]))
   = [(''Desconocido'', Num 2)]"
proof -
  let ?pts = "[null_row\<lparr>type := Some ''Peligro''\<rparr>]"
  let ?p = "null_row\<lparr>type := Some ''Peligro'', danger_type := Some [], health_status := Some []\<rparr>"
  have hazard: "type ?p = Some ''Peligro''"
    and empty: "danger_type ?p = Some []" "health_status ?p = Some []"
    by simp_all
  have before: "dangerTypes (stats ?pts) = [(''Desconocido'', Num 1)]"
    "healthStatus (stats ?pts) = [(''Desconocido'', Num 1)]"
    by (simp_all add: stats_eval)
  from C9_empty_like_absent [of ?pts ?p] hazard empty
  have "dangerTypes (stats (?pts @ [?p])) = count_in (dangerTypes (stats ?pts)) ''Desconocido''"
    and "healthStatus (stats (?pts @ [?p])) = count_in (healthStatus (stats ?pts)) ''Desconocido''"
    by blast+
  then show ?thesis
    by (simp add: before count_in_def assign_def plus_one_def)
qed

subsection \<open>Sums of the histogram counts\<close>

lemma update_plus_one:
  assumes "inherited k = None" and "all_counts h"
  shows "all_counts (AList.update k (plus_one (map_of h) k) h) \<and>
         sum_counts (AList.update k (plus_one (map_of h) k) h) = sum_counts h + 1"
  using assms(2)
proof (induction h)
  case Nil
  show ?case using assms(1) by (simp add: plus_one_def all_counts_def sum_counts_def slot_count_def)
next
  case (Cons kv h)
  obtain k' v' where kv: "kv = (k', v')" by (cases kv)
  show ?case
  proof (cases "k' = k")
    case True
    with Cons.prems show ?thesis
      by (cases v') (simp_all add: kv plus_one_def all_counts_def sum_counts_def slot_count_def)
  next
    case False
    have eq: "plus_one (map_of (kv # h)) k = plus_one (map_of h) k"
      using False by (simp add: kv plus_one_def)
    have upd: "AList.update k w (kv # h) = kv # AList.update k w h" for w
      using False by (simp add: kv)
    from Cons.prems have "all_counts h" and v': "all_counts [kv]"
      by (simp_all add: all_counts_def)
    from Cons.IH [OF this(1)] v' show ?thesis
      unfolding eq upd by (simp add: all_counts_def sum_counts_def)
  qed
qed

lemma count_in_plain:
  assumes "inherited k = None" and "all_counts h"
  shows "all_counts (count_in h k) \<and> sum_counts (count_in h k) = sum_counts h + 1"
proof -
  have "k \<noteq> ''__proto__''" using assms(1) by (auto simp add: inherited_def)
  then show ?thesis using update_plus_one [OF assms] by (simp add: count_in_def assign_def)
qed

lemma reducer_sums:
  assumes "type p = Some ''Peligro'' \<longrightarrow> plain_categories p"
    and "all_counts (dangerTypes a) \<and> sum_counts (dangerTypes a) = danger a"
    and "all_counts (healthStatus a) \<and> sum_counts (healthStatus a) = danger a"
  shows "(all_counts (dangerTypes (reducer a p)) \<and>
            sum_counts (dangerTypes (reducer a p)) = danger (reducer a p)) \<and>
         (all_counts (healthStatus (reducer a p)) \<and>
            sum_counts (healthStatus (reducer a p)) = danger (reducer a p))"
  using assms count_in_plain [of "or_default (danger_type p) ''Desconocido''" "dangerTypes a"]
    count_in_plain [of "or_default (health_status p) ''Desconocido''" "healthStatus a"]
  by (simp add: reducer_def plain_categories_def Let_def)

lemma foldl_reducer_sums:
  assumes "list_all (\<lambda>p. type p = Some ''Peligro'' \<longrightarrow> plain_categories p) pts"
    and "all_counts (dangerTypes a) \<and> sum_counts (dangerTypes a) = danger a"
    and "all_counts (healthStatus a) \<and> sum_counts (healthStatus a) = danger a"
  shows "sum_counts (dangerTypes (foldl reducer a pts)) = danger (foldl reducer a pts) \<and>
         sum_counts (healthStatus (foldl reducer a pts)) = danger (foldl reducer a pts)"
  using assms
proof (induction pts arbitrary: a)
  case Nil
  then show ?case by simp
next
  case (Cons p pts)
  have p: "type p = Some ''Peligro'' \<longrightarrow> plain_categories p"
    and rest: "list_all (\<lambda>p. type p = Some ''Peligro'' \<longrightarrow> plain_categories p) pts"
    using Cons.prems(1) by simp_all
  from reducer_sums [OF p Cons.prems(2) Cons.prems(3)]
  show ?case using Cons.IH [OF rest, of "reducer a p"] by simp
qed

text \<open>
  Where no hazard has a category or health status that names an inherited property, the
  counts of either histogram sum to the hazard count.
\<close>

lemma stats_sums_plain:
  assumes "list_all (\<lambda>p. type p = Some ''Peligro'' \<longrightarrow> plain_categories p) pts"
  shows "sum_counts (dangerTypes (stats pts)) = danger (stats pts) \<and>
         sum_counts (healthStatus (stats pts)) = danger (stats pts)"
  unfolding stats_def
  by (rule foldl_reducer_sums [OF assms]) (simp_all add: all_counts_def sum_counts_def)

text \<open>
  C8: the counts of the category histogram sum to the hazard count, and so do those of
  the health histogram. The source misses the categories that name a property inherited
  from \<^verbatim>\<open>Object.prototype\<close>: one hazard of category \<^verbatim>\<open>__proto__\<close> and health status
  \<^verbatim>\<open>constructor\<close> is counted as a hazard, leaves the category histogram empty (the
  assignment runs the inherited setter) and stores a string, not a count, in the health
  histogram.
\<close>

theorem C8_inherited_category:
  "stats [null_row\<lparr>type := Some ''Peligro'', danger_type := Some ''__proto__'',
      health_status := Some ''constructor''\<rparr>]
   = \<lparr>adults = 0, calves = 0, danger = 1, dangerTypes = [],
      healthStatus = [(''constructor'', Str ''function Object() { [native code] }1'')]\<rparr>
   \<and> sum_counts (dangerTypes (stats [null_row\<lparr>type := Some ''Peligro'',
      danger_type := Some ''__proto__'', health_status := Some ''constructor''\<rparr>])) = 0
   \<and> sum_counts (healthStatus (stats [null_row\<lparr>type := Some ''Peligro'',
      danger_type := Some ''__proto__'', health_status := Some ''constructor''\<rparr>])) = 0"
  by (simp add: stats_eval sum_counts_def slot_count_def)

section \<open>The filter\<close>

subsection \<open>Every stage is a filter\<close>

lemma user_stage_filter: "\<exists>P. user_stage st = filter P"
proof (cases "filterUser st = ''all''")
  case True
  then have "user_stage st = filter (\<lambda>_. True)" by (simp add: user_stage_def fun_eq_iff)
  then show ?thesis by blast
next
  case False
  then have "user_stage st = filter (\<lambda>p. includes_js
      (map id_t (filter (\<lambda>t. user_id t = Some (filterUser st)) (trips st))) (trip_id p))"
    by (simp add: user_stage_def fun_eq_iff)
  then show ?thesis by blast
qed

lemma date_stage_active:
  "truthy (filterStartDate st) \<or> truthy (filterEndDate st) \<Longrightarrow>
   date_stage L st = filter (in_range L st)"
  by (auto simp add: date_stage_def fun_eq_iff)

lemma date_stage_filter: "\<exists>P. date_stage L st = filter P"
proof (cases "truthy (filterStartDate st) \<or> truthy (filterEndDate st)")
  case True
  then show ?thesis using date_stage_active by blast
next
  case False
  then have "date_stage L st = filter (\<lambda>_. True)" by (simp add: date_stage_def fun_eq_iff)
  then show ?thesis by blast
qed

lemma trip_stage_filter: "\<exists>P. trip_stage st = filter P"
proof (cases "filterTrip st = ''all''")
  case True
  then have "trip_stage st = filter (\<lambda>_. True)" by (simp add: trip_stage_def fun_eq_iff)
  then show ?thesis by blast
next
  case False
  then have "trip_stage st = filter (\<lambda>p. trip_id p = Some (filterTrip st))"
    by (simp add: trip_stage_def fun_eq_iff)
  then show ?thesis by blast
qed

lemma type_stage_filter: "\<exists>P. type_stage st = filter P"
proof -
  have "type_stage st = filter (\<lambda>p. layer_on (activeLayers st) (type p))"
    by (simp add: type_stage_def fun_eq_iff)
  then show ?thesis by blast
qed

lemma filters_commute: "filter P \<circ> filter Q = filter Q \<circ> filter P"
  by (auto simp add: fun_eq_iff conj_commute)

lemma filteredPoints_filter: "\<exists>P. filteredPoints L st = filter P (points st)"
proof -
  obtain P1 where 1: "user_stage st = filter P1" using user_stage_filter by blast
  obtain P2 where 2: "date_stage L st = filter P2" using date_stage_filter by blast
  obtain P3 where 3: "trip_stage st = filter P3" using trip_stage_filter by blast
  obtain P4 where 4: "type_stage st = filter P4" using type_stage_filter by blast
  have "filteredPoints L st = filter (\<lambda>p. (P1 p \<and> P2 p) \<and> P3 p \<and> P4 p) (points st)"
    by (simp add: filteredPoints_def 1 2 3 4 conj_commute conj_left_commute)
  then show ?thesis by blast
qed

lemma later_stages_subset:
  "set (type_stage st (trip_stage st (date_stage L st zs))) \<subseteq> set zs"
  by (auto simp add: type_stage_def trip_stage_def date_stage_def)

text \<open>
  C4: for every filter selection and every point collection, the filtered result is a
  subsequence of the collection: its points occur in the collection, in the order of the
  collection.
\<close>

theorem C4_subsequence:
  "subseq (filteredPoints L st) (points st) \<and> set (filteredPoints L st) \<subseteq> set (points st)"
proof -
  obtain P where "filteredPoints L st = filter P (points st)"
    using filteredPoints_filter by blast
  then show ?thesis by simp
qed

subsection \<open>The date stage\<close>

lemma in_range_eq:
  "truthy (filterStartDate st) \<or> truthy (filterEndDate st) \<Longrightarrow>
   in_range L st p \<longleftrightarrow>
     (truthy (filterStartDate st) \<longrightarrow>
        date_ge (parseISO L (created_at p))
          (startOfDay L (parseISO L (Some (filterStartDate st))))) \<and>
     (truthy (filterEndDate st) \<longrightarrow>
        date_le (parseISO L (created_at p))
          (endOfDay L (parseISO L (Some (filterEndDate st)))))"
  by (cases "truthy (filterStartDate st)"; cases "truthy (filterEndDate st)")
     (simp_all add: in_range_def Let_def)

lemma in_range_invalid:
  "parseISO L (created_at p) = None \<Longrightarrow> \<not> in_range L st p"
  by (simp add: in_range_def date_ge_def date_le_def)

lemma in_range_points_update: "in_range L (st\<lparr>points := zs\<rparr>) = in_range L st"
  by (simp add: in_range_def fun_eq_iff)

lemma stage_points_update:
  "user_stage (st\<lparr>points := zs\<rparr>) = user_stage st"
  "date_stage L (st\<lparr>points := zs\<rparr>) = date_stage L st"
  "trip_stage (st\<lparr>points := zs\<rparr>) = trip_stage st"
  "type_stage (st\<lparr>points := zs\<rparr>) = type_stage st"
  by (simp_all add: user_stage_def date_stage_def trip_stage_def type_stage_def
      in_range_points_update fun_eq_iff)

lemma filteredPoints_date_filter:
  assumes "truthy (filterStartDate st) \<or> truthy (filterEndDate st)"
  shows "\<exists>P. \<forall>zs. filteredPoints L (st\<lparr>points := zs\<rparr>)
    = filter (\<lambda>q. in_range L st q \<and> P q) zs"
proof -
  obtain P1 where 1: "user_stage st = filter P1" using user_stage_filter by blast
  obtain P3 where 3: "trip_stage st = filter P3" using trip_stage_filter by blast
  obtain P4 where 4: "type_stage st = filter P4" using type_stage_filter by blast
  have "filteredPoints L (st\<lparr>points := zs\<rparr>)
      = filter (\<lambda>q. in_range L st q \<and> (P1 q \<and> P3 q \<and> P4 q)) zs" for zs
    by (auto simp add: filteredPoints_def stage_points_update 1 3 4 date_stage_active [OF assms]
        intro!: filter_cong)
  then show ?thesis
    by (intro exI [of _ "\<lambda>q. P1 q \<and> P3 q \<and> P4 q"] allI)
qed

text \<open>
  C3 (as stated): with the date range [2024-01-01, 2024-01-01] a point created at
  2024-01-02T00:00:01Z is excluded. The day bounds are those of the local time zone of
  the runtime; in La Paz (UTC-4, where the map is centred) that instant is 20:00:01 of
  1 January and the point passes.
\<close>

theorem C3_local_time_counterexample:
  "date_stage (local_date_fns (- 240))
     (initial_state\<lparr>filterStartDate := ''2024-01-01'', filterEndDate := ''2024-01-01''\<rparr>)
     [null_row\<lparr>created_at := Some ''2024-01-02T00:00:01Z''\<rparr>]
   = [null_row\<lparr>created_at := Some ''2024-01-02T00:00:01Z''\<rparr>]"
  by (simp add: date_eval)

text \<open>
  C3 (amended): in a runtime whose local time zone is UTC, the date range
  [2024-01-01, 2024-01-01] keeps a point created at 2024-01-01T23:59:00Z and drops a
  point created at 2024-01-02T00:00:01Z; in general the date stage keeps exactly the
  points whose parsed timestamp is, for each bound that is set, a valid date on the
  inner side of the library's start of day of the start date and end of day of the end
  date (both in local time), an unset bound imposing no constraint.
\<close>

theorem C3_date_stage:
  "date_stage (local_date_fns 0)
     (initial_state\<lparr>filterStartDate := ''2024-01-01'', filterEndDate := ''2024-01-01''\<rparr>)
     [null_row\<lparr>created_at := Some ''2024-01-01T23:59:00Z''\<rparr>,
      null_row\<lparr>created_at := Some ''2024-01-02T00:00:01Z''\<rparr>]
   = [null_row\<lparr>created_at := Some ''2024-01-01T23:59:00Z''\<rparr>]
   \<and> date_stage L st result =
     filter (\<lambda>p.
        (truthy (filterStartDate st) \<longrightarrow>
           date_ge (parseISO L (created_at p))
             (startOfDay L (parseISO L (Some (filterStartDate st))))) \<and>
        (truthy (filterEndDate st) \<longrightarrow>
           date_le (parseISO L (created_at p))
             (endOfDay L (parseISO L (Some (filterEndDate st))))))
      result"
proof (rule conjI)
  show "date_stage (local_date_fns 0)
     (initial_state\<lparr>filterStartDate := ''2024-01-01'', filterEndDate := ''2024-01-01''\<rparr>)
     [null_row\<lparr>created_at := Some ''2024-01-01T23:59:00Z''\<rparr>,
      null_row\<lparr>created_at := Some ''2024-01-02T00:00:01Z''\<rparr>]
   = [null_row\<lparr>created_at := Some ''2024-01-01T23:59:00Z''\<rparr>]"
    by (simp add: date_eval)
next
  show "date_stage L st result =
     filter (\<lambda>p.
        (truthy (filterStartDate st) \<longrightarrow>
           date_ge (parseISO L (created_at p))
             (startOfDay L (parseISO L (Some (filterStartDate st))))) \<and>
        (truthy (filterEndDate st) \<longrightarrow>
           date_le (parseISO L (created_at p))
             (endOfDay L (parseISO L (Some (filterEndDate st))))))
      result"
  proof (cases "truthy (filterStartDate st) \<or> truthy (filterEndDate st)")
    case True
    then show ?thesis
      by (simp only: date_stage_def if_True in_range_eq [OF True, abs_def])
  next
    case False
    then show ?thesis by (simp add: date_stage_def)
  qed
qed

text \<open>
  The general part at a start bound alone, in a UTC runtime: from 2024-01-02 on, the
  point of 2 January passes and the point of 1 January does not.
\<close>

theorem C3_witness:
  "date_stage (local_date_fns 0) (initial_state\<lparr>filterStartDate := ''2024-01-02''\<rparr>)
     [null_row\<lparr>created_at := Some ''2024-01-01T23:59:00Z''\<rparr>,
      null_row\<lparr>created_at := Some ''2024-01-02T00:00:01Z''\<rparr>]
   = [null_row\<lparr>created_at := Some ''2024-01-02T00:00:01Z''\<rparr>]"
proof -
  have "date_stage (local_date_fns 0) (initial_state\<lparr>filterStartDate := ''2024-01-02''\<rparr>)
     [null_row\<lparr>created_at := Some ''2024-01-01T23:59:00Z''\<rparr>,
      null_row\<lparr>created_at := Some ''2024-01-02T00:00:01Z''\<rparr>]
    = filter (\<lambda>p.
        (truthy (filterStartDate (initial_state\<lparr>filterStartDate := ''2024-01-02''\<rparr>)) \<longrightarrow>
           date_ge (parseISO (local_date_fns 0) (created_at p))
             (startOfDay (local_date_fns 0) (parseISO (local_date_fns 0)
               (Some (filterStartDate (initial_state\<lparr>filterStartDate := ''2024-01-02''\<rparr>)))))) \<and>
        (truthy (filterEndDate (initial_state\<lparr>filterStartDate := ''2024-01-02''\<rparr>)) \<longrightarrow>
           date_le (parseISO (local_date_fns 0) (created_at p))
             (endOfDay (local_date_fns 0) (parseISO (local_date_fns 0)
               (Some (filterEndDate (initial_state\<lparr>filterStartDate := ''2024-01-02''\<rparr>)))))))
     [null_row\<lparr>created_at := Some ''2024-01-01T23:59:00Z''\<rparr>,
      null_row\<lparr>created_at := Some ''2024-01-02T00:00:01Z''\<rparr>]"
    using C3_date_stage by (rule conjunct2)
  also have "\<dots> = [null_row\<lparr>created_at := Some ''2024-01-02T00:00:01Z''\<rparr>]"
    by (simp add: date_eval)
  finally show ?thesis .
qed

text \<open>
  A timestamp that is a string but not a date: with a bound set, the point is excluded by
  the date stage and so by the filter, and the filter returns for the other points what
  it returns without that point.
\<close>

lemma unparseable_timestamp_excluded:
  assumes "truthy (filterStartDate st) \<or> truthy (filterEndDate st)"
    and "created_at p = Some s"
    and "parseISO L (Some s) = None"
  shows "p \<notin> set (date_stage L st result) \<and>
         p \<notin> set (filteredPoints L st) \<and>
         filteredPoints L (st\<lparr>points := xs @ p # ys\<rparr>) = filteredPoints L (st\<lparr>points := xs @ ys\<rparr>)"
proof -
  have "parseISO L (created_at p) = None" using assms(2,3) by simp
  then have out: "\<not> in_range L st p" by (rule in_range_invalid)
  obtain P where P: "\<And>zs. filteredPoints L (st\<lparr>points := zs\<rparr>)
      = filter (\<lambda>q. in_range L st q \<and> P q) zs"
    using filteredPoints_date_filter [OF assms(1)] by blast
  have "p \<notin> set (date_stage L st result)"
    using out by (simp add: date_stage_active [OF assms(1)])
  moreover have "p \<notin> set (filteredPoints L st)"
    using P [of "points st"] out by simp
  moreover have "filteredPoints L (st\<lparr>points := xs @ p # ys\<rparr>)
      = filteredPoints L (st\<lparr>points := xs @ ys\<rparr>)"
    using out by (simp add: P)
  ultimately show ?thesis by blast
qed

subsection \<open>The exception of the date stage\<close>

lemma filter_js_strings:
  "\<forall>p \<in> set result. created_at p \<noteq> None \<Longrightarrow>
   filter_js (in_range_js L st) result = Inr (filter (in_range L st) result)"
  by (induction result) (auto simp add: in_range_js_def)

lemma filter_js_null:
  "\<exists>p \<in> set result. created_at p = None \<Longrightarrow>
   filter_js (in_range_js L st) result = Inl TypeError"
proof (induction result)
  case Nil
  then show ?case by simp
next
  case (Cons q result)
  show ?case
  proof (cases "created_at q")
    case None
    then show ?thesis by (simp add: in_range_js_def)
  next
    case (Some s)
    with Cons.prems have "\<exists>p \<in> set result. created_at p = None" by auto
    from Cons.IH [OF this] Some show ?thesis by (simp add: in_range_js_def)
  qed
qed

text \<open>
  The date stage throws exactly when a bound is set and a point that reaches it has no
  timestamp; otherwise it returns the value of \<open>date_stage\<close>. So does the filter.
\<close>

lemma date_stage_js_eq:
  "date_stage_js L st result =
     (if (truthy (filterStartDate st) \<or> truthy (filterEndDate st)) \<and>
         (\<exists>p \<in> set result. created_at p = None)
      then Inl TypeError else Inr (date_stage L st result))"
proof (cases "\<exists>p \<in> set result. created_at p = None")
  case True
  then show ?thesis
    using filter_js_null [OF True, of L st] by (simp add: date_stage_js_def date_stage_def)
next
  case False
  then have "\<forall>p \<in> set result. created_at p \<noteq> None" by simp
  from filter_js_strings [OF this, of L st] False show ?thesis
    by (simp add: date_stage_js_def date_stage_def)
qed

lemma filteredPoints_js_eq:
  "filteredPoints_js L st =
     (if (truthy (filterStartDate st) \<or> truthy (filterEndDate st)) \<and>
         (\<exists>p \<in> set (user_stage st (points st)). created_at p = None)
      then Inl TypeError else Inr (filteredPoints L st))"
  by (simp add: filteredPoints_js_def date_stage_js_eq filteredPoints_def)

text \<open>
  C7: with a bound of the date range set, a point without creation timestamp is excluded
  and the filter does not fail. The source passes the \<^verbatim>\<open>null\<close> to \<^verbatim>\<open>parseISO\<close> unguarded
  (the popup of the same point guards it), and the call throws: the filter of a single
  sighting without timestamp fails with the end date set, and returns the sighting
  with no date set.
\<close>

theorem C7_null_timestamp_throws:
  "filteredPoints_js (local_date_fns 0)
     (initial_state\<lparr>filterEndDate := ''2024-01-01'',
        points := [null_row\<lparr>type := Some ''Avistamiento''\<rparr>]\<rparr>)
   = Inl TypeError
   \<and> filteredPoints_js (local_date_fns 0)
     (initial_state\<lparr>points := [null_row\<lparr>type := Some ''Avistamiento''\<rparr>]\<rparr>)
   = Inr [null_row\<lparr>type := Some ''Avistamiento''\<rparr>]"
  by (simp add: filteredPoints_js_eq filter_eval date_eval)

subsection \<open>The order of the stages\<close>

lemma stage_value_filter: "\<exists>P. stage_value L st s = filter P"
  using user_stage_filter [of st] date_stage_filter [of L st] trip_stage_filter [of st]
    type_stage_filter [of st]
  by (cases s) simp_all

lemma stage_values_commute:
  "stage_value L st s \<circ> stage_value L st t = stage_value L st t \<circ> stage_value L st s"
proof -
  obtain P Q where "stage_value L st s = filter P" "stage_value L st t = filter Q"
    using stage_value_filter by blast
  then show ?thesis by (simp add: filters_commute)
qed

lemma run_stages_permuted:
  assumes "mset ss = mset ts"
  shows "run_stages L st ss result = run_stages L st ts result"
proof -
  have "fold (stage_value L st) ss = fold (stage_value L st) ts"
    using stage_values_commute assms by (rule fold_multiset_equiv)
  then show ?thesis by (simp add: run_stages_def)
qed

lemma run_stages_canonical: "run_stages L st canonical_order (points st) = filteredPoints L st"
  by (simp add: run_stages_def canonical_order_def filteredPoints_def)

lemma run_stages_js_canonical:
  "run_stages_js L st canonical_order (points st) = filteredPoints_js L st"
  by (simp add: canonical_order_def filteredPoints_js_def split: sum.splits)

lemma stage_value_subset: "set (stage_value L st s result) \<subseteq> set result"
proof -
  obtain P where "stage_value L st s = filter P"
    using stage_value_filter by blast
  then show ?thesis by simp
qed

lemma stage_js_value:
  assumes "\<not> (truthy (filterStartDate st) \<or> truthy (filterEndDate st)) \<or>
      (\<forall>p \<in> set result. created_at p \<noteq> None)"
  shows "stage_js L st s result = Inr (stage_value L st s result)"
  using assms by (cases s) (auto simp add: date_stage_js_eq)

text \<open>
  Where no date bound is set, or every point has a timestamp, nothing throws and every
  permutation of the stages returns the filtered sequence of the canonical order.
\<close>

lemma run_stages_js_value:
  assumes "\<not> (truthy (filterStartDate st) \<or> truthy (filterEndDate st)) \<or>
      (\<forall>p \<in> set result. created_at p \<noteq> None)"
  shows "run_stages_js L st ss result = Inr (run_stages L st ss result)"
  using assms
proof (induction ss arbitrary: result)
  case Nil
  show ?case by (simp add: run_stages_def)
next
  case (Cons s ss)
  have "\<not> (truthy (filterStartDate st) \<or> truthy (filterEndDate st)) \<or>
      (\<forall>p \<in> set (stage_value L st s result). created_at p \<noteq> None)"
    using Cons.prems stage_value_subset [of L st s result] by blast
  from Cons.IH [OF this] show ?case
    by (simp add: stage_js_value [OF Cons.prems] run_stages_def)
qed

lemma stages_commute_with_timestamps:
  assumes "mset ss = mset canonical_order"
    and "\<not> (truthy (filterStartDate st) \<or> truthy (filterEndDate st)) \<or>
      (\<forall>p \<in> set (points st). created_at p \<noteq> None)"
  shows "run_stages_js L st ss (points st) = Inr (filteredPoints L st) \<and>
         filteredPoints_js L st = Inr (filteredPoints L st)"
proof -
  have "run_stages_js L st ss (points st) = Inr (run_stages L st canonical_order (points st))"
    using run_stages_js_value [OF assms(2)] run_stages_permuted [OF assms(1)] by simp
  moreover have "filteredPoints_js L st = Inr (run_stages L st canonical_order (points st))"
    using run_stages_js_value [OF assms(2), of L canonical_order]
    by (simp add: run_stages_js_canonical)
  ultimately show ?thesis by (simp add: run_stages_canonical)
qed


subsection \<open>The user stage\<close>

lemma includes_js_iff: "includes_js ids x \<longleftrightarrow> (\<exists>s. x = Some s \<and> s \<in> set ids)"
  by (cases x) (simp_all add: includes_js_def)

text \<open>
  C10: when a user is selected, a point whose trip identifier is \<^verbatim>\<open>null\<close>, or is the
  identifier of no trip of the trip collection, is excluded by the user stage and so by
  the filter; the stage returns a list in every case.
\<close>

theorem C10_dangling_trip_excluded:
  assumes "filterUser st \<noteq> ''all''"
    and "trip_id p = None \<or> (\<forall>t \<in> set (trips st). trip_id p \<noteq> Some (id_t t))"
  shows "p \<notin> set (user_stage st result) \<and> p \<notin> set (filteredPoints L st)"
proof -
  have no: "p \<notin> set (user_stage st zs)" for zs
    using assms by (auto simp add: user_stage_def includes_js_iff)
  have "set (filteredPoints L st) \<subseteq> set (user_stage st (points st))"
    unfolding filteredPoints_def by (rule later_stages_subset)
  with no show ?thesis by blast
qed

text \<open>
  User \<open>u1\<close> owns trip \<open>t1\<close>: of a point without trip, a point of the unknown trip \<open>t9\<close>
  and a point of \<open>t1\<close>, the user stage keeps the last.
\<close>

theorem C10_witness:
  "user_stage
     (initial_state\<lparr>filterUser := ''u1'',
        trips := [\<lparr>id_t = ''t1'', user_id = Some ''u1'', start_time = None\<rparr>]\<rparr>)
     [null_row\<lparr>type := Some ''Inicio''\<rparr>,
      null_row\<lparr>type := Some ''Inicio'', trip_id := Some ''t9''\<rparr>,
      null_row\<lparr>type := Some ''Inicio'', trip_id := Some ''t1''\<rparr>]
   = [null_row\<lparr>type := Some ''Inicio'', trip_id := Some ''t1''\<rparr>]
   \<and> null_row\<lparr>type := Some ''Inicio''\<rparr>
     \<notin> set (user_stage
       (initial_state\<lparr>filterUser := ''u1'',
          trips := [\<lparr>id_t = ''t1'', user_id = Some ''u1'', start_time = None\<rparr>]\<rparr>)
       [null_row\<lparr>type := Some ''Inicio''\<rparr>,
        null_row\<lparr>type := Some ''Inicio'', trip_id := Some ''t9''\<rparr>,
        null_row\<lparr>type := Some ''Inicio'', trip_id := Some ''t1''\<rparr>])
   \<and> null_row\<lparr>type := Some ''Inicio'', trip_id := Some ''t9''\<rparr>
     \<notin> set (user_stage
       (initial_state\<lparr>filterUser := ''u1'',
          trips := [\<lparr>id_t = ''t1'', user_id = Some ''u1'', start_time = None\<rparr>]\<rparr>)
       [null_row\<lparr>type := Some ''Inicio''\<rparr>,
        null_row\<lparr>type := Some ''Inicio'', trip_id := Some ''t9''\<rparr>,
        null_row\<lparr>type := Some ''Inicio'', trip_id := Some ''t1''\<rparr>])"
proof -
  let ?st = "initial_state\<lparr>filterUser := ''u1'',
        trips := [\<lparr>id_t = ''t1'', user_id = Some ''u1'', start_time = None\<rparr>]\<rparr>"
  let ?null = "null_row\<lparr>type := Some ''Inicio''\<rparr>"
  let ?dangling = "null_row\<lparr>type := Some ''Inicio'', trip_id := Some ''t9''\<rparr>"
  let ?own = "null_row\<lparr>type := Some ''Inicio'', trip_id := Some ''t1''\<rparr>"
  have user: "filterUser ?st \<noteq> ''all''" by simp
  have null: "trip_id ?null = None \<or> (\<forall>t \<in> set (trips ?st). trip_id ?null \<noteq> Some (id_t t))"
    by (simp add: null_row_def)
  have dangling:
    "trip_id ?dangling = None \<or> (\<forall>t \<in> set (trips ?st). trip_id ?dangling \<noteq> Some (id_t t))"
    by simp
  have "user_stage ?st [?null, ?dangling, ?own] = [?own]"
    by (simp add: user_stage_def includes_js_def null_row_def initial_state_def)
  moreover have "?null \<notin> set (user_stage ?st [?null, ?dangling, ?own])"
    using C10_dangling_trip_excluded [OF user null] by blast
  moreover have "?dangling \<notin> set (user_stage ?st [?null, ?dangling, ?own])"
    using C10_dangling_trip_excluded [OF user dangling] by blast
  ultimately show ?thesis by blast
qed

end
